theory Spec2Isabelle
  imports Main "HOL-Library.Sublist"
begin

section \<open>The Pump.fun API client (utils/js\_client.js)\<close>

text \<open>
  A shallow embedding of the class \<^verbatim>\<open>PumpFunAPI\<close>: its constructor, the request
  executor \<^verbatim>\<open>_request\<close> with its inner \<^verbatim>\<open>makeRequest\<close>, and the paginated collector
  \<^verbatim>\<open>getAllTokenTrades\<close>.

  The network is an oracle: \<open>env k\<close> is what the \<open>k\<close>-th physical attempt (0-based) of one
  logical request meets. Every call of \<^verbatim>\<open>makeRequest(attempt)\<close> issues exactly one
  \<^verbatim>\<open>https.request\<close>, and a retry is always \<^verbatim>\<open>makeRequest(attempt + 1)\<close>, so the attempt
  number is also the index of the physical request. What the executor does besides
  settling its promise (requests sent, timers set, lines logged) is returned as a list
  of events, in program order.

  Functions of the JavaScript runtime that the client calls but does not define
  (\<^verbatim>\<open>JSON.parse\<close>, the conversion of a number to a string) are parameters, collected in
  the record \<open>runtime\<close>.
\<close>

subsection \<open>Values\<close>

text \<open>A parsed JSON value; \<open>'n\<close> is the type of JavaScript numbers.\<close>

datatype 'n json =
    JNull
  | JBool bool
  | JNum 'n
  | JStr string
  | JArr "'n json list"
  | JObj "(string \<times> 'n json) list"

text \<open>A value of a query-parameter object, as \<^verbatim>\<open>Object.entries(params)\<close> lists them.\<close>

datatype 'n param_value =
    PUndefined
  | PNull
  | PBool bool
  | PNum 'n
  | PStr string

type_synonym 'n params = "(string \<times> 'n param_value) list"

type_synonym headers = "(string \<times> string) list"

text \<open>
  A JavaScript string is a sequence of UTF-16 code units, which \<^verbatim>\<open>trim\<close> and \<^verbatim>\<open>substring\<close>
  act on. The response body, and the messages built from it, are such sequences; a code
  unit is a number below 65536. The texts that the client only compares or passes on
  (method, endpoint, header names and values, keys) are \<open>string\<close>s; \<open>ascii\<close> gives the
  code units of one written in ASCII.
\<close>

type_synonym code_unit = nat

type_synonym js_string = "code_unit list"

definition ascii :: "string \<Rightarrow> js_string" where
  "ascii s = map of_char s"

record 'n runtime =
  JSON_parse :: "js_string \<Rightarrow> js_string + 'n json"
    \<comment> \<open>\<open>Inl m\<close>: a SyntaxError with message \<open>m\<close> is thrown\<close>
  Number_toString :: "'n \<Rightarrow> string"

text \<open>JavaScript truthiness of a string and of a parsed JSON value (which is never NaN).\<close>

definition truthy_string :: "'a list \<Rightarrow> bool" where
  "truthy_string s = (s \<noteq> [])"

fun truthy :: "('n::zero) json \<Rightarrow> bool" where
  "truthy JNull = False"
| "truthy (JBool b) = b"
| "truthy (JNum n) = (n \<noteq> 0)"
| "truthy (JStr s) = truthy_string s"
| "truthy (JArr xs) = True"
| "truthy (JObj kvs) = True"

text \<open>\<^verbatim>\<open>String(value)\<close> for a parameter value.\<close>

fun String :: "'n runtime \<Rightarrow> 'n param_value \<Rightarrow> string" where
  "String rt PUndefined = ''undefined''"
| "String rt PNull = ''null''"
| "String rt (PBool b) = (if b then ''true'' else ''false'')"
| "String rt (PNum n) = Number_toString rt n"
| "String rt (PStr s) = s"

text \<open>
  \<^verbatim>\<open>String.prototype.trim\<close>: white space and line terminators are dropped at both ends.
  White space is TAB, VT, FF, the byte order mark U+FEFF and the space separators of
  Unicode (SPACE, U+00A0, U+1680, U+2000 to U+200A, U+202F, U+205F, U+3000); the line
  terminators are LF, CR, U+2028 and U+2029. Each is one code unit.
\<close>

definition is_whitespace :: "code_unit \<Rightarrow> bool" where
  "is_whitespace u =
     (u \<in> set [0x09, 0x0A, 0x0B, 0x0C, 0x0D, 0x20, 0xA0, 0x1680,
               0x2000, 0x2001, 0x2002, 0x2003, 0x2004, 0x2005, 0x2006, 0x2007, 0x2008,
               0x2009, 0x200A, 0x2028, 0x2029, 0x202F, 0x205F, 0x3000, 0xFEFF])"

definition trim :: "js_string \<Rightarrow> js_string" where
  "trim s = rev (dropWhile is_whitespace (rev (dropWhile is_whitespace s)))"

text \<open>\<^verbatim>\<open>s.substring(0, n)\<close> is \<open>take n s\<close>: the first \<open>n\<close> code units.\<close>

definition substring0 :: "nat \<Rightarrow> js_string \<Rightarrow> js_string" where
  "substring0 n s = take n s"

text \<open>
  The numbers of the backoff computation. The retry ceiling is a count and the base delay
  a whole number of milliseconds that a double holds exactly; \<^verbatim>\<open>Math.pow(2, attempt)\<close> is
  exact up to attempt 1023 and \<^verbatim>\<open>Infinity\<close> from 1024 on; the product of such a delay and a
  power of two is exact unless it reaches \<open>2 ^ 1024\<close>, where it is \<^verbatim>\<open>Infinity\<close>;
  \<^verbatim>\<open>0 * Infinity\<close> is \<^verbatim>\<open>NaN\<close>, and \<^verbatim>\<open>Math.min\<close> of \<^verbatim>\<open>NaN\<close> and a number is \<^verbatim>\<open>NaN\<close>.
\<close>

datatype js_number =
    Finite nat
  | Infinity
  | NaN

definition Math_pow2 :: "nat \<Rightarrow> js_number" where
  "Math_pow2 n = (if n < 1024 then Finite (2 ^ n) else Infinity)"

fun js_times :: "nat \<Rightarrow> js_number \<Rightarrow> js_number" where
  "js_times x (Finite y) = (if x * y < 2 ^ 1024 then Finite (x * y) else Infinity)"
| "js_times x Infinity = (if x = 0 then NaN else Infinity)"
| "js_times x NaN = NaN"

fun Math_min :: "js_number \<Rightarrow> nat \<Rightarrow> js_number" where
  "Math_min (Finite x) y = Finite (min x y)"
| "Math_min Infinity y = Finite y"
| "Math_min NaN y = NaN"

subsection \<open>The client and its constructor\<close>

record client =
  baseUrl :: string
  apiKey :: "string option"
  maxRetries :: nat
  retryDelay :: nat
  headers :: headers
  debug :: bool

text \<open>
  The options object handed to the constructor. A field is \<open>None\<close> when the caller leaves
  the key out. The constructor destructures \<^verbatim>\<open>apiKey\<close>, \<^verbatim>\<open>maxRetries\<close> and \<^verbatim>\<open>retryDelay\<close>
  only; \<open>opt_baseUrl\<close> and \<open>opt_debug\<close> are keys a caller may pass all the same.
\<close>

record options =
  opt_apiKey :: "string option"
  opt_maxRetries :: "nat option"
  opt_retryDelay :: "nat option"
  opt_baseUrl :: "string option"
  opt_debug :: "bool option"

definition default_headers :: headers where
  "default_headers =
     [(''Accept'', ''application/json''),
      (''Content-Type'', ''application/json''),
      (''User-Agent'', ''PumpFunAPI/1.0.0 (Node.js)'')]"

text \<open>\<^verbatim>\<open>apiKey || process.env.PUMPFUN_API_KEY\<close>\<close>

definition key_or_env :: "string option \<Rightarrow> string option \<Rightarrow> string option" where
  "key_or_env k env_key =
     (case k of
        None \<Rightarrow> env_key
      | Some s \<Rightarrow> if truthy_string s then Some s else env_key)"

text \<open>
  \<open>env_key\<close> is the environment variable \<^verbatim>\<open>PUMPFUN_API_KEY\<close>. The constructor never
  assigns \<^verbatim>\<open>this.debug\<close>: the property is undefined, which \<^verbatim>\<open>if (this.debug)\<close> reads as
  false, until somebody assigns it on the object.
\<close>

definition constructor :: "string option \<Rightarrow> options \<Rightarrow> client" where
  "constructor env_key opts =
     (let key = key_or_env (opt_apiKey opts) env_key
      in \<lparr> baseUrl = ''https://frontend-api-v3.pump.fun'',
           apiKey = key,
           maxRetries = (case opt_maxRetries opts of None \<Rightarrow> 3 | Some n \<Rightarrow> n),
           retryDelay = (case opt_retryDelay opts of None \<Rightarrow> 1000 | Some n \<Rightarrow> n),
           headers =
             (case key of
                None \<Rightarrow> default_headers
              | Some k \<Rightarrow>
                  if truthy_string k
                  then default_headers @ [(''Authorization'', ''Bearer '' @ k)]
                  else default_headers),
           debug = False \<rparr>)"

subsection \<open>Building the URL\<close>

text \<open>
  The \<^verbatim>\<open>URL\<close> object: the string it was built from and the pairs appended to its
  \<^verbatim>\<open>searchParams\<close>, in order. The model takes \<^verbatim>\<open>new URL\<close> to succeed.
\<close>

record url =
  href :: string
  searchParams :: "(string \<times> string) list"

definition append_param :: "'n runtime \<Rightarrow> url \<Rightarrow> string \<times> 'n param_value \<Rightarrow> url" where
  "append_param rt u kv =
     (case kv of (key, v) \<Rightarrow>
        if v \<noteq> PUndefined \<and> v \<noteq> PNull
        then u\<lparr>searchParams := searchParams u @ [(key, String rt v)]\<rparr>
        else u)"

definition build_url :: "'n runtime \<Rightarrow> client \<Rightarrow> string \<Rightarrow> string \<Rightarrow> 'n params \<Rightarrow> url" where
  "build_url rt c meth endpoint ps =
     (let u = \<lparr> href = baseUrl c @ endpoint, searchParams = [] \<rparr>
      in if meth = ''GET'' \<and> length ps > 0
         then foldl (append_param rt) u ps
         else u)"

subsection \<open>What one attempt meets, and what the executor does\<close>

text \<open>
  A response: \<open>res_body\<close> is the text of the accumulated chunks,
  \<^verbatim>\<open>Buffer.concat(data, dataLength).toString()\<close>.
\<close>

record response =
  statusCode :: nat
  res_headers :: headers
  res_body :: js_string

text \<open>
  The error object that reaches the request's \<^verbatim>\<open>'error'\<close> handler: one raised by the
  transport, or the one \<^verbatim>\<open>req.destroy\<close> is given when the 10 second timer fires
  (\<^verbatim>\<open>Request timed out after 10000ms\<close>).
\<close>

datatype 'e transport_error =
    NetworkError 'e
  | TimeoutError nat

datatype 'e outcome =
    Responded response
  | Errored 'e
  | TimedOut

text \<open>
  The argument of \<^verbatim>\<open>setTimeout\<close>. On a transport failure it is a number of milliseconds.
  In the rate-limit branch it is \<^verbatim>\<open>retryAfter * 1000\<close>, where \<^verbatim>\<open>retryAfter\<close> is the text of
  the \<^verbatim>\<open>retry-after\<close> header or \<^verbatim>\<open>this.retryDelay / 1000\<close>; the product is kept symbolic.
\<close>

datatype retry_after =
    HeaderSeconds string
  | ConfigSeconds nat  \<comment> \<open>\<^verbatim>\<open>this.retryDelay / 1000\<close>, named by \<^verbatim>\<open>this.retryDelay\<close>\<close>

datatype timer =
    Millis js_number
  | SecondsTimes1000 retry_after

record 'n request =
  req_method :: string
  req_url :: url
  req_headers :: headers
  req_timeout :: nat
  req_body :: "'n params option"  \<comment> \<open>the object given to \<^verbatim>\<open>JSON.stringify\<close>\<close>

datatype ('n, 'e) log_line =
    LogRequest string url
  | LogRequestBody "'n params"
  | LogStatus nat
  | LogHeaders headers
  | LogRateLimited retry_after nat nat
  | LogRetrying "'e transport_error" js_number nat nat

datatype ('n, 'e) event =
    Sent "'n request"
  | SetTimeout timer
  | Log "('n, 'e) log_line"

text \<open>
  The errors the promise is rejected with. \<open>ParseFailure m\<close> carries the whole message;
  \<open>EmptyResponse s\<close> stands for \<^verbatim>\<open>Empty response with status s\<close>, \<open>ApiError s m d h\<close> for
  \<^verbatim>\<open>API request failed with status s: m\<close> with \<^verbatim>\<open>response = {status, data, headers}\<close>,
  \<open>RateLimited n\<close> for \<^verbatim>\<open>Rate limited after n attempts\<close>, \<open>ProcessFailure\<close> for the
  \<^verbatim>\<open>Failed to process response: ...\<close> of the outer \<^verbatim>\<open>catch\<close>, and \<open>Transport e\<close> is the
  transport's own error object.
\<close>

datatype ('n, 'e) error =
    EmptyResponse nat
  | ParseFailure js_string
  | ApiError nat "'n json" "'n json" headers
  | RateLimited nat
  | ProcessFailure
  | Transport "'e transport_error"

datatype ('n, 'e) settled =
    Resolve "'n json"
  | Reject "('n, 'e) error"

datatype ('n, 'e) step =
    Settle "('n, 'e) settled"
  | Retry timer

subsection \<open>The response handler\<close>

definition parse_failure_message :: "js_string \<Rightarrow> js_string \<Rightarrow> js_string" where
  "parse_failure_message m response =
     ascii ''Failed to parse JSON response: '' @ m @ [0x0A] @ ascii ''Response: ''
       @ substring0 200 response @ ascii ''...''"

text \<open>
  \<^verbatim>\<open>a || b || 'Unknown error'\<close>, where \<open>None\<close> is \<^verbatim>\<open>undefined\<close>.
\<close>

definition first_truthy :: "('n::zero) json option \<Rightarrow> 'n json option \<Rightarrow> 'n json" where
  "first_truthy a b =
     (case a of
        Some x \<Rightarrow>
          if truthy x then x
          else (case b of Some y \<Rightarrow> if truthy y then y else JStr ''Unknown error''
                        | None \<Rightarrow> JStr ''Unknown error'')
      | None \<Rightarrow>
          (case b of Some y \<Rightarrow> if truthy y then y else JStr ''Unknown error''
                   | None \<Rightarrow> JStr ''Unknown error''))"

text \<open>
  \<^verbatim>\<open>jsonResponse.message || jsonResponse.error || 'Unknown error'\<close>. Reading a property of
  \<^verbatim>\<open>null\<close> throws a TypeError (\<open>None\<close>); a boolean, number, string or array has neither
  property. The keys of an object are distinct.
\<close>

fun errorMessage :: "('n::zero) json \<Rightarrow> 'n json option" where
  "errorMessage JNull = None"
| "errorMessage (JObj kvs) = Some (first_truthy (map_of kvs ''message'') (map_of kvs ''error''))"
| "errorMessage j = Some (JStr ''Unknown error'')"

text \<open>\<^verbatim>\<open>res.headers['retry-after'] || this.retryDelay / 1000\<close>\<close>

definition retryAfter :: "client \<Rightarrow> response \<Rightarrow> retry_after" where
  "retryAfter c res =
     (case map_of (res_headers res) ''retry-after'' of
        Some s \<Rightarrow> if truthy_string s then HeaderSeconds s else ConfigSeconds (retryDelay c)
      | None \<Rightarrow> ConfigSeconds (retryDelay c))"

text \<open>
  The handler of the response's \<^verbatim>\<open>'end'\<close> event, for attempt number \<open>attempt\<close>: the events
  it causes and whether it settles the promise or sets a timer for the next attempt.
  The branches stand in the order of the source.
\<close>

definition on_end ::
  "('n::zero) runtime \<Rightarrow> client \<Rightarrow> nat \<Rightarrow> response \<Rightarrow> ('n, 'e) event list \<times> ('n, 'e) step" where
  "on_end rt c attempt res =
     (let response = res_body res;
          logs = (if debug c
                  then [Log (LogStatus (statusCode res)), Log (LogHeaders (res_headers res))]
                  else [])
      in if \<not> truthy_string (trim response) then
           (if statusCode res \<ge> 200 \<and> statusCode res < 300
            then (logs, Settle (Resolve (JObj [])))
            else (logs, Settle (Reject (EmptyResponse (statusCode res)))))
         else
           (case JSON_parse rt response of
              Inl m \<Rightarrow> (logs, Settle (Reject (ParseFailure (parse_failure_message m response))))
            | Inr jsonResponse \<Rightarrow>
                if statusCode res \<ge> 400 then
                  (case errorMessage jsonResponse of
                     None \<Rightarrow> (logs, Settle (Reject ProcessFailure))
                   | Some m \<Rightarrow>
                       (logs, Settle (Reject
                          (ApiError (statusCode res) m jsonResponse (res_headers res)))))
                else if statusCode res = 429 then
                  (if attempt < maxRetries c
                   then (logs @ (if debug c
                                 then [Log (LogRateLimited (retryAfter c res) (attempt + 1)
                                              (maxRetries c))]
                                 else []),
                         Retry (SecondsTimes1000 (retryAfter c res)))
                   else (logs, Settle (Reject (RateLimited (maxRetries c)))))
                else (logs, Settle (Resolve jsonResponse))))"

subsection \<open>The error handler\<close>

text \<open>\<^verbatim>\<open>Math.min(this.retryDelay * Math.pow(2, attempt), 30000)\<close>\<close>

definition backoff_delay :: "client \<Rightarrow> nat \<Rightarrow> js_number" where
  "backoff_delay c attempt = Math_min (js_times (retryDelay c) (Math_pow2 attempt)) 30000"

definition on_error ::
  "client \<Rightarrow> nat \<Rightarrow> 'e transport_error \<Rightarrow> ('n, 'e) event list \<times> ('n, 'e) step" where
  "on_error c attempt err =
     (if attempt < maxRetries c then
        (let delay = backoff_delay c attempt
         in ((if debug c
              then [Log (LogRetrying err delay (attempt + 1) (maxRetries c))]
              else []),
             Retry (Millis delay)))
      else ([], Settle (Reject (Transport err))))"

text \<open>What the handlers do with the outcome of attempt \<open>attempt\<close>.\<close>

definition handle ::
  "('n::zero) runtime \<Rightarrow> client \<Rightarrow> nat \<Rightarrow> 'e outcome \<Rightarrow> ('n, 'e) event list \<times> ('n, 'e) step" where
  "handle rt c attempt out =
     (case out of
        Responded res \<Rightarrow> on_end rt c attempt res
      | Errored e \<Rightarrow> on_error c attempt (NetworkError e)
      | TimedOut \<Rightarrow> on_error c attempt (TimeoutError 10000))"

lemma on_end_Retry: "on_end rt c attempt res = (evs, Retry t) \<Longrightarrow> attempt < maxRetries c"
  by (simp add: on_end_def Let_def split: if_splits sum.splits option.splits)

lemma on_error_Retry: "on_error c attempt err = (evs, Retry t) \<Longrightarrow> attempt < maxRetries c"
  by (simp add: on_error_def Let_def split: if_splits)

lemma handle_Retry: "handle rt c attempt out = (evs, Retry t) \<Longrightarrow> attempt < maxRetries c"
  by (cases out) (auto simp: handle_def dest: on_end_Retry on_error_Retry)

subsection \<open>The executor\<close>

text \<open>
  \<^verbatim>\<open>makeRequest(attempt)\<close>, with the variables of the enclosing \<^verbatim>\<open>_request\<close> it closes over:
  the method, the URL and the parameters. It logs when \<^verbatim>\<open>debug\<close> is set, sends the
  request (with the JSON body when the method is not GET and there are parameters), and
  the handlers either settle the promise or set the timer that calls
  \<^verbatim>\<open>makeRequest(attempt + 1)\<close>.
\<close>

definition the_request :: "client \<Rightarrow> string \<Rightarrow> url \<Rightarrow> 'n params \<Rightarrow> 'n request" where
  "the_request c meth u ps =
     \<lparr> req_method = meth, req_url = u, req_headers = headers c, req_timeout = 10000,
       req_body = (if meth \<noteq> ''GET'' \<and> length ps > 0 then Some ps else None) \<rparr>"

definition request_logs :: "client \<Rightarrow> string \<Rightarrow> url \<Rightarrow> 'n params \<Rightarrow> ('n, 'e) event list" where
  "request_logs c meth u ps =
     (if debug c
      then Log (LogRequest meth u) # (if meth \<noteq> ''GET'' then [Log (LogRequestBody ps)] else [])
      else [])"

function makeRequest ::
  "('n::zero) runtime \<Rightarrow> client \<Rightarrow> (nat \<Rightarrow> 'e outcome) \<Rightarrow> string \<Rightarrow> url \<Rightarrow> 'n params \<Rightarrow> nat
     \<Rightarrow> ('n, 'e) event list \<times> ('n, 'e) settled" where
  "makeRequest rt c env meth u ps attempt =
     (let pre = request_logs c meth u ps @ [Sent (the_request c meth u ps)]
      in case handle rt c attempt (env attempt) of
           (evs, Settle r) \<Rightarrow> (pre @ evs, r)
         | (evs, Retry t) \<Rightarrow>
             (case makeRequest rt c env meth u ps (attempt + 1) of
                (evs', r) \<Rightarrow> (pre @ evs @ [SetTimeout t] @ evs', r)))"
  by pat_completeness auto
termination
  by (relation "measure (\<lambda>(rt, c, env, meth, u, ps, attempt). maxRetries c - attempt)")
     (auto dest!: handle_Retry [OF sym])

definition request ::
  "('n::zero) runtime \<Rightarrow> client \<Rightarrow> (nat \<Rightarrow> 'e outcome) \<Rightarrow> string \<Rightarrow> string \<Rightarrow> 'n params
     \<Rightarrow> ('n, 'e) event list \<times> ('n, 'e) settled" where
  "request rt c env meth endpoint ps =
     makeRequest rt c env meth (build_url rt c meth endpoint ps) ps 0"

text \<open>Projections of the event list: the physical attempts and the timers, in order.\<close>

fun is_Sent :: "('n, 'e) event \<Rightarrow> bool" where
  "is_Sent (Sent r) = True"
| "is_Sent e = False"

fun is_Log :: "('n, 'e) event \<Rightarrow> bool" where
  "is_Log (Log l) = True"
| "is_Log e = False"

definition attempts :: "('n, 'e) event list \<Rightarrow> nat" where
  "attempts evs = length (filter is_Sent evs)"

fun timers :: "('n, 'e) event list \<Rightarrow> timer list" where
  "timers [] = []"
| "timers (SetTimeout t # evs) = t # timers evs"
| "timers (e # evs) = timers evs"

text \<open>The error object of an attempt that fails in the transport, as \<open>handle\<close> builds it.\<close>

fun transport_failure :: "'e outcome \<Rightarrow> 'e transport_error option" where
  "transport_failure (Responded res) = None"
| "transport_failure (Errored e) = Some (NetworkError e)"
| "transport_failure TimedOut = Some (TimeoutError 10000)"

subsection \<open>The paginated collector\<close>

text \<open>
  \<^verbatim>\<open>getTokenTrades\<close> is one logical request:
  \<^verbatim>\<open>_request('GET', `/trades/all/${tokenAddress}`, {limit, offset, minimumSize})\<close>.
\<close>

record trades_query =
  q_tokenAddress :: string
  q_limit :: nat
  q_offset :: nat
  q_minimumSize :: nat

definition getTokenTrades :: "trades_query \<Rightarrow> string \<times> string \<times> nat params" where
  "getTokenTrades q =
     (''GET'', ''/trades/all/'' @ q_tokenAddress q,
      [(''limit'', PNum (q_limit q)), (''offset'', PNum (q_offset q)),
       (''minimumSize'', PNum (q_minimumSize q))])"

text \<open>
  What one awaited page fetch gives the collector: the promise is rejected with an error,
  or it resolves with a response whose \<^verbatim>\<open>trades\<close> is an array (\<open>Some\<close>) or is absent
  or falsy (\<open>None\<close>). An error thrown on reading \<^verbatim>\<open>trades\<close> of a \<^verbatim>\<open>null\<close> response rejects
  the collector's promise as a failed fetch does. The pages are listed in the order the
  fetches are answered; the collector is \<open>Pending\<close> when it awaits a fetch that the list
  does not answer.
\<close>

datatype ('e, 't) page =
    Failed 'e
  | Page "'t list option"

datatype ('e, 't) outcome_all =
    Returned "'t list"
  | Threw 'e
  | Pending

datatype collector_event =
    Fetched trades_query
  | Slept nat

record collect_options =
  tokenAddress :: string
  batchSize :: "nat option"
  maxTrades :: "nat option"
  minimumSize :: "nat option"

text \<open>\<^verbatim>\<open>maxTrades && allTrades.length >= maxTrades\<close>: an absent cap and the cap 0 are falsy.\<close>

definition cap_reached :: "nat option \<Rightarrow> nat \<Rightarrow> bool" where
  "cap_reached mt n = (case mt of None \<Rightarrow> False | Some m \<Rightarrow> m \<noteq> 0 \<and> n \<ge> m)"

text \<open>\<^verbatim>\<open>maxTrades ? Math.min(batchSize, maxTrades - allTrades.length) : batchSize\<close>\<close>

definition page_limit :: "nat \<Rightarrow> nat option \<Rightarrow> nat \<Rightarrow> nat" where
  "page_limit bs mt n =
     (case mt of
        None \<Rightarrow> bs
      | Some m \<Rightarrow> if m \<noteq> 0 then min bs (m - n) else bs)"

text \<open>\<^verbatim>\<open>response.trades || []\<close>\<close>

definition trades_or_empty :: "'t list option \<Rightarrow> 't list" where
  "trades_or_empty t = (case t of None \<Rightarrow> [] | Some ts \<Rightarrow> ts)"

text \<open>
  The \<^verbatim>\<open>while (hasMore)\<close> loop, entered with the current \<^verbatim>\<open>allTrades\<close> and \<^verbatim>\<open>offset\<close>;
  \<open>bs\<close>, \<open>mt\<close>, \<open>addr\<close> and \<open>ms\<close> are \<^verbatim>\<open>batchSize\<close>, \<^verbatim>\<open>maxTrades\<close>, \<^verbatim>\<open>tokenAddress\<close> and
  \<^verbatim>\<open>minimumSize\<close>.
\<close>

fun collect_loop ::
  "nat \<Rightarrow> nat option \<Rightarrow> string \<Rightarrow> nat \<Rightarrow> 't list \<Rightarrow> nat \<Rightarrow> ('e, 't) page list
     \<Rightarrow> collector_event list \<times> ('e, 't) outcome_all" where
  "collect_loop bs mt addr ms allTrades off [] =
     (if cap_reached mt (length allTrades) then ([], Returned allTrades)
      else ([Fetched \<lparr> q_tokenAddress = addr,
                        q_limit = page_limit bs mt (length allTrades),
                        q_offset = off, q_minimumSize = ms \<rparr>],
            Pending))"
| "collect_loop bs mt addr ms allTrades off (p # rest) =
     (if cap_reached mt (length allTrades) then ([], Returned allTrades)
      else
        (let q = \<lparr> q_tokenAddress = addr,
                    q_limit = page_limit bs mt (length allTrades),
                    q_offset = off, q_minimumSize = ms \<rparr>
         in case p of
              Failed e \<Rightarrow> ([Fetched q], Threw e)
            | Page t \<Rightarrow>
                (let trades = trades_or_empty t
                 in if length trades = 0 then ([Fetched q], Returned allTrades)
                    else
                      (case collect_loop bs mt addr ms (allTrades @ trades)
                              (off + length trades) rest of
                         (evs, r) \<Rightarrow>
                           (Fetched q
                              # (if length trades = bs then [Slept 500] else []) @ evs,
                            r)))))"

definition getAllTokenTrades ::
  "collect_options \<Rightarrow> ('e, 't) page list \<Rightarrow> collector_event list \<times> ('e, 't) outcome_all" where
  "getAllTokenTrades opts pages =
     collect_loop
       (case batchSize opts of None \<Rightarrow> 200 | Some b \<Rightarrow> b)
       (maxTrades opts)
       (tokenAddress opts)
       (case minimumSize opts of None \<Rightarrow> 50000000 | Some m \<Rightarrow> m)
       [] 0 pages"

text \<open>The queries of the fetches, in order, and the items of a page.\<close>

fun fetches :: "collector_event list \<Rightarrow> trades_query list" where
  "fetches [] = []"
| "fetches (Fetched q # evs) = q # fetches evs"
| "fetches (Slept n # evs) = fetches evs"

fun items :: "('e, 't) page \<Rightarrow> 't list" where
  "items (Failed e) = []"
| "items (Page t) = trades_or_empty t"

text \<open>
  The number of items in the first \<open>i\<close> pages, and a page that resolves with no items.
\<close>

definition collected :: "('e, 't) page list \<Rightarrow> nat \<Rightarrow> nat" where
  "collected pages i = length (concat (map items (take i pages)))"

fun empty_page :: "('e, 't) page \<Rightarrow> bool" where
  "empty_page (Failed e) = False"
| "empty_page (Page t) = (trades_or_empty t = [])"

subsection \<open>Example data\<close>

definition example_options :: options where
  "example_options =
     \<lparr> opt_apiKey = Some ''secret'', opt_maxRetries = Some 3, opt_retryDelay = Some 1000,
       opt_baseUrl = Some ''https://api.pump.fun/v1'', opt_debug = Some True \<rparr>"

definition example_client :: client where
  "example_client = constructor None example_options"

definition example_parse :: "js_string \<Rightarrow> js_string + int json" where
  "example_parse s =
     (if s = ascii ''{}'' then Inr (JObj [])
      else if s = ascii ''{\"message\":\"slow down\"}''
      then Inr (JObj [(''message'', JStr ''slow down'')])
      else if s = [] then Inl (ascii ''Unexpected end of JSON input'')
      else Inl (ascii ''Unexpected token''))"

text \<open>
  A runtime for the examples. Its numbers are the integers, which \<^verbatim>\<open>String\<close> writes in
  decimal; its \<^verbatim>\<open>JSON.parse\<close> knows two texts and rejects every other one.
\<close>

function decimal :: "nat \<Rightarrow> string" where
  "decimal n =
     (if n < 10 then [''0123456789'' ! n]
      else decimal (n div 10) @ [''0123456789'' ! (n mod 10)])"
  by pat_completeness auto
termination
  by (relation "measure (\<lambda>n. n)") auto

definition int_toString :: "int \<Rightarrow> string" where
  "int_toString i = (if i < 0 then CHR ''-'' # decimal (nat (- i)) else decimal (nat i))"

definition example_runtime :: "int runtime" where
  "example_runtime = \<lparr> JSON_parse = example_parse, Number_toString = int_toString \<rparr>"

definition example_collect :: "nat option \<Rightarrow> collect_options" where
  "example_collect cap =
     \<lparr> tokenAddress = ''mint'', batchSize = Some 2, maxTrades = cap, minimumSize = None \<rparr>"

section \<open>Lemmas about the executor\<close>

declare makeRequest.simps [simp del]

declare decimal.simps [simp del]

lemma attempts_append [simp]: "attempts (xs @ ys) = attempts xs + attempts ys"
  by (simp add: attempts_def)

lemma timers_append [simp]: "timers (xs @ ys) = timers xs @ timers ys"
  by (induction xs rule: timers.induct) auto

lemma attempts_request_logs [simp]: "attempts (request_logs c meth u ps) = 0"
  by (simp add: request_logs_def attempts_def)

lemma timers_request_logs [simp]: "timers (request_logs c meth u ps) = []"
  by (simp add: request_logs_def)

lemma on_end_events:
  "on_end rt c a res = (evs, st) \<Longrightarrow> attempts evs = 0 \<and> timers evs = []"
  by (auto simp: on_end_def Let_def attempts_def split: if_splits sum.splits option.splits)

lemma on_error_events:
  "on_error c a err = (evs, st) \<Longrightarrow> attempts evs = 0 \<and> timers evs = []"
  by (auto simp: on_error_def Let_def attempts_def split: if_splits)

lemma handle_events:
  "handle rt c a out = (evs, st) \<Longrightarrow> attempts evs = 0 \<and> timers evs = []"
  by (cases out) (auto simp: handle_def dest: on_end_events on_error_events)

lemma makeRequest_Settle:
  assumes "handle rt c a (env a) = (evs, Settle r)"
  shows "makeRequest rt c env meth u ps a =
           (request_logs c meth u ps @ [Sent (the_request c meth u ps)] @ evs, r)"
  using assms by (subst makeRequest.simps) simp

lemma makeRequest_Retry:
  assumes "handle rt c a (env a) = (evs, Retry t)"
  shows "makeRequest rt c env meth u ps a =
           (request_logs c meth u ps @ [Sent (the_request c meth u ps)] @ evs @ [SetTimeout t]
              @ fst (makeRequest rt c env meth u ps (a + 1)),
            snd (makeRequest rt c env meth u ps (a + 1)))"
  using assms by (subst makeRequest.simps) (simp add: case_prod_beta)

lemma attempts_Sent [simp]: "attempts [Sent r] = 1" "attempts (Sent r # evs) = Suc (attempts evs)"
  "attempts (SetTimeout t # evs) = attempts evs"
  by (simp_all add: attempts_def)

lemma attempts_length_timers:
  "attempts (fst (makeRequest rt c env meth u ps a)) = Suc (length (timers (fst (makeRequest rt c env meth u ps a))))"
proof (induction rt c env meth u ps a rule: makeRequest.induct)
  case (1 rt c env meth u ps attempt)
  obtain evs st where h: "handle rt c attempt (env attempt) = (evs, st)" by force
  show ?case
  proof (cases st)
    case (Settle r)
    with h handle_events[OF h] show ?thesis by (simp add: makeRequest_Settle)
  next
    case (Retry t)
    with h handle_events[OF h] 1[OF refl h[symmetric]] show ?thesis
      by (simp add: makeRequest_Retry)
  qed
qed

lemma attempts_bound:
  "attempts (fst (makeRequest rt c env meth u ps a)) + a \<le> max (maxRetries c) a + 1"
proof (induction rt c env meth u ps a rule: makeRequest.induct)
  case (1 rt c env meth u ps attempt)
  obtain evs st where h: "handle rt c attempt (env attempt) = (evs, st)" by force
  show ?case
  proof (cases st)
    case (Settle r)
    with h handle_events[OF h] show ?thesis by (simp add: makeRequest_Settle)
  next
    case (Retry t)
    with h have lt: "attempt < maxRetries c" by (auto dest: handle_Retry)
    from Retry h handle_events[OF h] 1[OF refl h[symmetric]] lt show ?thesis
      by (simp add: makeRequest_Retry)
  qed
qed

text \<open>
  Attempt \<open>a\<close> is issued in the run that starts at attempt \<open>b\<close> when
  \<open>a - b\<close> is less than the number of requests that run sends. What the handlers do
  at attempt \<open>a\<close> then decides the run.
\<close>

lemma issued_Settle:
  assumes "b \<le> a" "a - b < attempts (fst (makeRequest rt c env meth u ps b))"
    and "handle rt c a (env a) = (evs, Settle r)"
  shows "snd (makeRequest rt c env meth u ps b) = r \<and>
         attempts (fst (makeRequest rt c env meth u ps b)) = a - b + 1"
  using assms
proof (induction rt c env meth u ps b rule: makeRequest.induct)
  case (1 rt c env meth u ps attempt)
  obtain evs0 st where h: "handle rt c attempt (env attempt) = (evs0, st)" by force
  show ?case
  proof (cases st)
    case (Settle r0)
    with h handle_events[OF h] 1(2,3,4) show ?thesis by (simp add: makeRequest_Settle)
  next
    case (Retry t)
    with h 1(4) have ne: "a \<noteq> attempt" by auto
    with 1(2) have le: "attempt + 1 \<le> a" by simp
    from Retry h handle_events[OF h] 1(3) le
    have "a - (attempt + 1) < attempts (fst (makeRequest rt c env meth u ps (attempt + 1)))"
      by (simp add: makeRequest_Retry)
    from 1(1)[OF refl h[symmetric] Retry le this 1(4)] Retry h handle_events[OF h] le
    show ?thesis by (simp add: makeRequest_Retry Suc_diff_Suc)
  qed
qed

lemma issued_Retry:
  assumes "b \<le> a" "a - b < attempts (fst (makeRequest rt c env meth u ps b))"
    and "handle rt c a (env a) = (evs, Retry t)"
  shows "a - b < length (timers (fst (makeRequest rt c env meth u ps b))) \<and>
         timers (fst (makeRequest rt c env meth u ps b)) ! (a - b) = t"
  using assms
proof (induction rt c env meth u ps b rule: makeRequest.induct)
  case (1 rt c env meth u ps attempt)
  obtain evs0 st where h: "handle rt c attempt (env attempt) = (evs0, st)" by force
  show ?case
  proof (cases st)
    case (Settle r0)
    with h handle_events[OF h] 1(2,3,4) show ?thesis by (simp add: makeRequest_Settle)
  next
    case (Retry t0)
    show ?thesis
    proof (cases "a = attempt")
      case True
      with Retry h handle_events[OF h] 1(4) show ?thesis by (simp add: makeRequest_Retry)
    next
      case False
      with 1(2) have le: "attempt + 1 \<le> a" by simp
      from Retry h handle_events[OF h] 1(3) le
      have "a - (attempt + 1) < attempts (fst (makeRequest rt c env meth u ps (attempt + 1)))"
        by (simp add: makeRequest_Retry)
      from 1(1)[OF refl h[symmetric] Retry le this 1(4)] Retry h handle_events[OF h] le
      show ?thesis by (auto simp: makeRequest_Retry nth_Cons')
    qed
  qed
qed

lemma makeRequest_unfold:
  "makeRequest rt c env meth u ps a =
     (case snd (handle rt c a (env a)) of
        Settle r \<Rightarrow>
          (request_logs c meth u ps @ [Sent (the_request c meth u ps)]
             @ fst (handle rt c a (env a)), r)
      | Retry t \<Rightarrow>
          (request_logs c meth u ps @ [Sent (the_request c meth u ps)]
             @ fst (handle rt c a (env a)) @ [SetTimeout t]
             @ fst (makeRequest rt c env meth u ps (a + 1)),
           snd (makeRequest rt c env meth u ps (a + 1))))"
proof -
  obtain evs st where h: "handle rt c a (env a) = (evs, st)" by force
  show ?thesis
    by (cases st) (simp_all add: h makeRequest_Settle makeRequest_Retry)
qed

lemma attempts_Nil [simp]: "attempts [] = 0"
  by (simp add: attempts_def)

lemmas example_defs = example_client_def example_options_def constructor_def key_or_env_def
  truthy_string_def example_runtime_def example_parse_def default_headers_def
  int_toString_def decimal.simps

lemmas run_defs = request_def makeRequest_unfold handle_def on_end_def on_error_def
  backoff_delay_def Math_pow2_def trim_def is_whitespace_def ascii_def retryAfter_def
  first_truthy_def request_logs_def

lemma handle_failure: "transport_failure out = Some err \<Longrightarrow> handle rt c a out = on_error c a err"
  by (cases out) (auto simp: handle_def)

text \<open>
  The backoff delay in closed form: the doubles agree with the natural numbers except
  for a base delay of 0 at an attempt number from 1024 on.
\<close>

lemma backoff_delay_eq:
  "backoff_delay c a =
     (if retryDelay c = 0 \<and> 1024 \<le> a then NaN
      else Finite (min (retryDelay c * 2 ^ a) 30000))"
proof (cases "a < 1024")
  case True
  have "(30000::nat) \<le> 2 ^ 1024" by simp
  then have "min (retryDelay c * 2 ^ a) 30000 = 30000" if "\<not> retryDelay c * 2 ^ a < 2 ^ 1024"
    using that by linarith
  with True show ?thesis
    by (simp add: backoff_delay_def Math_pow2_def)
next
  case False
  then have "(2::nat) ^ 1024 \<le> 2 ^ a" by (intro power_increasing) simp_all
  moreover have "(30000::nat) \<le> 2 ^ 1024" by simp
  ultimately have big: "(30000::nat) \<le> 2 ^ a" by linarith
  have "min (retryDelay c * 2 ^ a) 30000 = 30000" if nz: "retryDelay c \<noteq> 0"
  proof -
    from nz have "2 ^ a \<le> retryDelay c * 2 ^ a" by simp
    with big have "30000 \<le> retryDelay c * 2 ^ a" by linarith
    then show ?thesis by simp
  qed
  with False show ?thesis
    by (simp add: backoff_delay_def Math_pow2_def)
qed

text \<open>A run whose attempts so far all failed in the transport goes on up to the ceiling.\<close>

lemma issued_after_failures:
  assumes "b \<le> a" "a \<le> maxRetries c"
    and "\<forall>k. b \<le> k \<and> k < a \<longrightarrow> transport_failure (env k) \<noteq> None"
  shows "a - b < attempts (fst (makeRequest rt c env meth u ps b))"
  using assms
proof (induction rt c env meth u ps b rule: makeRequest.induct)
  case (1 rt c env meth u ps attempt)
  show ?case
  proof (cases "a = attempt")
    case True
    then show ?thesis by (simp add: attempts_length_timers)
  next
    case False
    with 1(2,3) have lt: "attempt < a" "attempt < maxRetries c" by simp_all
    with 1(4) obtain err where "transport_failure (env attempt) = Some err" by auto
    with lt(2) obtain evs t where h: "handle rt c attempt (env attempt) = (evs, Retry t)"
      by (simp add: handle_failure on_error_def Let_def)
    from lt(1) have le: "attempt + 1 \<le> a" by simp
    from 1(4) have "\<forall>k. attempt + 1 \<le> k \<and> k < a \<longrightarrow> transport_failure (env k) \<noteq> None"
      by simp
    from 1(1) [OF refl h [symmetric] refl le 1(3) this] h handle_events [OF h] lt(1)
    show ?thesis by (simp add: makeRequest_Retry)
  qed
qed

text \<open>The timer that follows a failed attempt of the run.\<close>

lemma failed_attempt_timer:
  assumes "a < attempts (fst (request rt c env meth endpoint ps))"
    and "transport_failure (env a) = Some err"
    and "a < maxRetries c"
  shows "a < length (timers (fst (request rt c env meth endpoint ps))) \<and>
         timers (fst (request rt c env meth endpoint ps)) ! a = Millis (backoff_delay c a)"
proof -
  from assms(2,3) have "handle rt c a (env a) =
      ((if debug c then [Log (LogRetrying err (backoff_delay c a) (a + 1) (maxRetries c))]
        else []),
       Retry (Millis (backoff_delay c a)))"
    by (simp add: handle_failure on_error_def Let_def)
  from issued_Retry [of 0 a rt c env meth "build_url rt c meth endpoint ps" ps, OF _ _ this]
    assms(1)
  show ?thesis by (simp add: request_def)
qed

lemma trim_empty_iff: "trim s = [] \<longleftrightarrow> list_all is_whitespace s"
proof (cases "dropWhile is_whitespace s")
  case Nil
  then have "\<forall>x\<in>set s. is_whitespace x" by (simp add: dropWhile_eq_Nil_conv)
  then show ?thesis by (auto simp: trim_def list_all_iff dest: set_dropWhileD)
next
  case (Cons x xs)
  then have "\<not> is_whitespace x" using hd_dropWhile [of is_whitespace s] by auto
  moreover have "x \<in> set s" using Cons set_dropWhileD [of x is_whitespace s] by simp
  ultimately show ?thesis using Cons by (auto simp: trim_def list_all_iff)
qed

text \<open>
  The end handler never sets a timer: a response with status 429 never gets past the test
  \<^verbatim>\<open>statusCode >= 400\<close>, so the branch that handles rate limiting is not reached.
\<close>

lemma on_end_never_retries: "snd (on_end rt c a res) \<noteq> Retry t"
  by (simp add: on_end_def Let_def split: sum.splits option.splits)

lemma makeRequest_starts:
  "\<exists>rest. fst (makeRequest rt c env meth u ps a)
            = request_logs c meth u ps @ Sent (the_request c meth u ps) # rest"
  by (subst makeRequest_unfold) (simp split: step.splits)

lemma handle_quiet: "\<not> debug c \<Longrightarrow> fst (handle rt c a out) = []"
  by (cases out)
     (auto simp: handle_def on_end_def on_error_def Let_def split: sum.splits option.splits)

lemma no_logs_without_debug:
  "\<not> debug c \<Longrightarrow> filter is_Log (fst (makeRequest rt c env meth u ps a)) = []"
proof (induction rt c env meth u ps a rule: makeRequest.induct)
  case (1 rt c env meth u ps attempt)
  obtain evs st where h: "handle rt c attempt (env attempt) = (evs, st)" by force
  with handle_quiet [OF 1(2), of rt attempt "env attempt"] have e: "evs = []" by simp
  show ?case
  proof (cases st)
    case (Settle r)
    with h e 1(2) show ?thesis by (simp add: makeRequest_Settle request_logs_def)
  next
    case (Retry t)
    with h e 1(2) 1(1)[OF refl h[symmetric] Retry 1(2)] show ?thesis
      by (simp add: makeRequest_Retry request_logs_def)
  qed
qed

lemma foldl_append_param:
  "foldl (append_param rt) u ps =
     u\<lparr>searchParams := searchParams u
          @ map (\<lambda>(k, v). (k, String rt v)) (filter (\<lambda>(k, v). v \<noteq> PUndefined \<and> v \<noteq> PNull) ps)\<rparr>"
  by (induction ps arbitrary: u) (auto simp: append_param_def)

section \<open>Lemmas about the collector\<close>

lemma fetches_append [simp]: "fetches (xs @ ys) = fetches xs @ fetches ys"
  by (induction xs rule: fetches.induct) auto

lemma fetches_pause [simp]: "fetches (if b then [Slept n] else []) = []"
  by simp

text \<open>One turn of the loop on a non-empty page.\<close>

lemma collect_loop_step:
  assumes "\<not> cap_reached mt (length acc)" and "trades_or_empty t \<noteq> []"
  shows "collect_loop bs mt addr ms acc off (Page t # rest) =
           (Fetched \<lparr> q_tokenAddress = addr, q_limit = page_limit bs mt (length acc),
                      q_offset = off, q_minimumSize = ms \<rparr>
              # (if length (trades_or_empty t) = bs then [Slept 500] else [])
              @ fst (collect_loop bs mt addr ms (acc @ trades_or_empty t)
                       (off + length (trades_or_empty t)) rest),
            snd (collect_loop bs mt addr ms (acc @ trades_or_empty t)
                   (off + length (trades_or_empty t)) rest))"
  using assms by (simp add: Let_def case_prod_beta)

lemma collect_loop_capped:
  "cap_reached mt (length acc) \<Longrightarrow> collect_loop bs mt addr ms acc off pages = ([], Returned acc)"
  by (cases pages) simp_all

lemma collect_loop_empty_page:
  assumes "\<not> cap_reached mt (length acc)" and "trades_or_empty t = []"
  shows "collect_loop bs mt addr ms acc off (Page t # rest) =
           ([Fetched \<lparr> q_tokenAddress = addr, q_limit = page_limit bs mt (length acc),
                       q_offset = off, q_minimumSize = ms \<rparr>], Returned acc)"
  using assms by (simp add: Let_def)

lemma collect_loop_failed:
  assumes "\<not> cap_reached mt (length acc)"
  shows "collect_loop bs mt addr ms acc off (Failed e # rest) =
           ([Fetched \<lparr> q_tokenAddress = addr, q_limit = page_limit bs mt (length acc),
                       q_offset = off, q_minimumSize = ms \<rparr>], Threw e)"
  using assms by (simp add: Let_def)

lemma collect_loop_Nil:
  assumes "\<not> cap_reached mt (length acc)"
  shows "collect_loop bs mt addr ms acc off [] =
           ([Fetched \<lparr> q_tokenAddress = addr, q_limit = page_limit bs mt (length acc),
                       q_offset = off, q_minimumSize = ms \<rparr>], Pending)"
  using assms by simp

declare collect_loop.simps [simp del]

lemmas loop_cases = collect_loop_capped collect_loop_empty_page collect_loop_failed
  collect_loop_Nil collect_loop_step

lemma collected_0 [simp]: "collected pages 0 = 0"
  by (simp add: collected_def)

lemma collected_Suc [simp]: "collected (p # pages) (Suc i) = length (items p) + collected pages i"
  by (simp add: collected_def)

lemma loop_induct [consumes 0, case_names capped pending failed empty step]:
  assumes "\<And>acc off pages. cap_reached mt (length acc) \<Longrightarrow> P acc off pages"
    and "\<And>acc off. \<not> cap_reached mt (length acc) \<Longrightarrow> P acc off []"
    and "\<And>acc off e rest. \<not> cap_reached mt (length acc) \<Longrightarrow> P acc off (Failed e # rest)"
    and "\<And>acc off t rest. \<not> cap_reached mt (length acc) \<Longrightarrow> trades_or_empty t = []
           \<Longrightarrow> P acc off (Page t # rest)"
    and "\<And>acc off t rest. \<not> cap_reached mt (length acc) \<Longrightarrow> trades_or_empty t \<noteq> []
           \<Longrightarrow> P (acc @ trades_or_empty t) (off + length (trades_or_empty t)) rest
           \<Longrightarrow> P acc off (Page t # rest)"
  shows "P acc off pages"
proof (induction pages arbitrary: acc off)
  case Nil
  then show ?case using assms(1,2) by blast
next
  case (Cons p rest)
  show ?case
  proof (cases "cap_reached mt (length acc)")
    case True
    then show ?thesis by (rule assms(1))
  next
    case nc: False
    show ?thesis
    proof (cases p)
      case (Failed e)
      with nc show ?thesis by (simp add: assms(3))
    next
      case (Page t)
      with nc Cons.IH show ?thesis
        by (cases "trades_or_empty t = []") (simp_all add: assms(4,5))
    qed
  qed
qed

lemma loop_fetch_nth:
  "i < length (fetches (fst (collect_loop bs mt addr ms acc off pages))) \<Longrightarrow>
   fetches (fst (collect_loop bs mt addr ms acc off pages)) ! i =
     \<lparr> q_tokenAddress = addr,
       q_limit = page_limit bs mt (length acc + collected pages i),
       q_offset = off + collected pages i,
       q_minimumSize = ms \<rparr>"
proof (induction acc off pages arbitrary: i rule: loop_induct [where mt = mt])
  case (step acc off t rest)
  show ?case
  proof (cases i)
    case 0
    with step show ?thesis by (simp add: loop_cases)
  next
    case (Suc j)
    with step.prems step.hyps
    have "j < length (fetches (fst (collect_loop bs mt addr ms (acc @ trades_or_empty t)
                 (off + length (trades_or_empty t)) rest)))"
      by (simp add: loop_cases)
    from step.IH [OF this] step.hyps Suc show ?thesis
      by (simp add: loop_cases add.assoc)
  qed
qed (simp_all add: loop_cases)

lemma loop_returned:
  "snd (collect_loop bs mt addr ms acc off pages) = Returned xs \<Longrightarrow>
   length (fetches (fst (collect_loop bs mt addr ms acc off pages))) \<le> length pages \<and>
   xs = acc @ concat (map items
                  (take (length (fetches (fst (collect_loop bs mt addr ms acc off pages)))) pages))"
  by (induction acc off pages rule: loop_induct [where mt = mt]) (simp_all add: loop_cases)

lemma loop_stops_at_empty:
  "j < length pages \<Longrightarrow> items (pages ! j) = [] \<Longrightarrow>
   length (fetches (fst (collect_loop bs mt addr ms acc off pages))) \<le> j + 1 \<and>
   snd (collect_loop bs mt addr ms acc off pages) \<noteq> Pending"
proof (induction acc off pages arbitrary: j rule: loop_induct [where mt = mt])
  case (step acc off t rest)
  then obtain k where "j = Suc k" by (cases j) auto
  with step show ?case by (simp add: loop_cases)
qed (simp_all add: loop_cases)

lemma loop_failed:
  "i < length pages \<Longrightarrow> pages ! i = Failed e \<Longrightarrow>
   i < length (fetches (fst (collect_loop bs mt addr ms acc off pages))) \<Longrightarrow>
   snd (collect_loop bs mt addr ms acc off pages) = Threw e \<and>
   length (fetches (fst (collect_loop bs mt addr ms acc off pages))) = i + 1"
proof (induction acc off pages arbitrary: i rule: loop_induct [where mt = mt])
  case (step acc off t rest)
  then obtain k where "i = Suc k" by (cases i) auto
  with step show ?case by (simp add: loop_cases)
qed (simp_all add: loop_cases)

lemma loop_cap_bound:
  "m \<noteq> 0 \<Longrightarrow> length acc \<le> m \<Longrightarrow>
   \<forall>i < length (fetches (fst (collect_loop bs (Some m) addr ms acc off pages))).
      length (items (pages ! i))
        \<le> q_limit (fetches (fst (collect_loop bs (Some m) addr ms acc off pages)) ! i) \<Longrightarrow>
   snd (collect_loop bs (Some m) addr ms acc off pages) = Returned xs \<Longrightarrow>
   length xs \<le> m"
proof (induction acc off pages rule: loop_induct [where mt = "Some m"])
  case (step acc off t rest)
  let ?ts = "trades_or_empty t"
  from step.prems(3) step.hyps have "length ?ts \<le> page_limit bs (Some m) (length acc)"
    by (auto simp: loop_cases)
  with step.prems(1,2) have len: "length (acc @ ?ts) \<le> m"
    by (auto simp: page_limit_def)
  have "\<forall>i < length (fetches (fst (collect_loop bs (Some m) addr ms (acc @ ?ts)
                 (off + length ?ts) rest))).
      length (items (rest ! i))
        \<le> q_limit (fetches (fst (collect_loop bs (Some m) addr ms (acc @ ?ts)
                 (off + length ?ts) rest)) ! i)"
  proof (intro allI impI)
    fix i
    assume "i < length (fetches (fst (collect_loop bs (Some m) addr ms (acc @ ?ts)
                 (off + length ?ts) rest)))"
    with step.prems(3) [rule_format, of "Suc i"] step.hyps
    show "length (items (rest ! i))
        \<le> q_limit (fetches (fst (collect_loop bs (Some m) addr ms (acc @ ?ts)
                 (off + length ?ts) rest)) ! i)"
      by (simp add: loop_cases)
  qed
  from step.IH [OF step.prems(1) len this] step.prems(4) step.hyps show ?case
    by (simp add: loop_cases)
qed (simp_all add: loop_cases)




text \<open>
  The whole run. Let the first \<open>j\<close> pages hold items, with the cap not reached before any
  of them. If the cap is reached after them the loop returns their items and has made
  \<open>j\<close> fetches; if not, it makes the next fetch, returns their items when that page is
  empty, and is left waiting when there is no further page.
\<close>

lemma loop_run:
  assumes "j \<le> length pages"
    and "\<forall>i<j. items (pages ! i) \<noteq> [] \<and> \<not> cap_reached mt (length acc + collected pages i)"
  shows "(cap_reached mt (length acc + collected pages j) \<longrightarrow>
            snd (collect_loop bs mt addr ms acc off pages)
              = Returned (acc @ concat (map items (take j pages))) \<and>
            length (fetches (fst (collect_loop bs mt addr ms acc off pages))) = j) \<and>
         (\<not> cap_reached mt (length acc + collected pages j) \<longrightarrow>
            j < length (fetches (fst (collect_loop bs mt addr ms acc off pages))) \<and>
            (j < length pages \<and> empty_page (pages ! j) \<longrightarrow>
               snd (collect_loop bs mt addr ms acc off pages)
                 = Returned (acc @ concat (map items (take j pages))) \<and>
               length (fetches (fst (collect_loop bs mt addr ms acc off pages))) = j + 1) \<and>
            (j = length pages \<longrightarrow>
               snd (collect_loop bs mt addr ms acc off pages) = Pending \<and>
               length (fetches (fst (collect_loop bs mt addr ms acc off pages))) = j + 1))"
  using assms
proof (induction acc off pages arbitrary: j rule: loop_induct [where mt = mt])
  case (capped acc off pages)
  then have "j = 0" by (cases j) auto
  with capped show ?case by (simp add: loop_cases)
next
  case (pending acc off)
  then show ?case by (simp add: loop_cases)
next
  case (failed acc off e rest)
  then have "j = 0" by (cases j) auto
  with failed show ?case by (simp add: loop_cases)
next
  case (empty acc off t rest)
  then have "j = 0" by (cases j) auto
  with empty show ?case by (simp add: loop_cases)
next
  case (step acc off t rest)
  show ?case
  proof (cases j)
    case 0
    with step.hyps show ?thesis by (simp add: loop_cases)
  next
    case (Suc k)
    with step.prems have k: "k \<le> length rest" by simp
    have "\<forall>i<k. items (rest ! i) \<noteq> [] \<and>
            \<not> cap_reached mt (length (acc @ trades_or_empty t) + collected rest i)"
    proof (intro allI impI)
      fix i assume "i < k"
      with step.prems(2) [rule_format, of "Suc i"] Suc
      show "items (rest ! i) \<noteq> [] \<and>
            \<not> cap_reached mt (length (acc @ trades_or_empty t) + collected rest i)"
        by (simp add: add.assoc)
    qed
    from step.IH [OF k this] step.hyps Suc show ?thesis
      by (auto simp: loop_cases add.assoc)
  qed
qed

lemmas collect_eval = getAllTokenTrades_def example_collect_def collect_loop.simps
  cap_reached_def page_limit_def trades_or_empty_def Let_def

section \<open>The constructor\<close>

text \<open>
  C2. The claim: the constructor accepts \<^verbatim>\<open>{baseUrl, apiKey, maxRetries, retryDelay, debug}\<close>,
  a supplied \<^verbatim>\<open>baseUrl\<close> overrides the host and a supplied \<^verbatim>\<open>debug\<close> enables logging.
  The constructor destructures \<^verbatim>\<open>apiKey\<close>, \<^verbatim>\<open>maxRetries\<close> and \<^verbatim>\<open>retryDelay\<close> only: given a
  \<^verbatim>\<open>baseUrl\<close> and \<^verbatim>\<open>debug: true\<close>, the client still has the fixed base URL and no debug flag.
\<close>

theorem constructor_ignores_baseUrl_and_debug:
  "opt_baseUrl example_options = Some ''https://api.pump.fun/v1'' \<and>
   baseUrl (constructor None example_options) = ''https://frontend-api-v3.pump.fun'' \<and>
   opt_debug example_options = Some True \<and>
   debug (constructor None example_options) = False"
  by (simp add: example_defs)

text \<open>
  C2, as the code has it. Whatever the options, the base URL of the client is the fixed
  string, and every request URL is that string followed by the endpoint;
  \<^verbatim>\<open>maxRetries\<close> (default 3) is the retry ceiling and \<^verbatim>\<open>retryDelay\<close> (default 1000) the base
  delay; a non-empty \<^verbatim>\<open>apiKey\<close> is the key of the client and is sent as
  \<^verbatim>\<open>Authorization: Bearer <key>\<close>; the constructor leaves \<^verbatim>\<open>debug\<close> unset, so a request
  made with the client as constructed logs nothing, and one made after \<^verbatim>\<open>debug\<close> has been
  assigned on the client starts by logging the method and the URL.
\<close>

theorem constructor_configuration:
  "baseUrl (constructor env_key opts) = ''https://frontend-api-v3.pump.fun'' \<and>
   href (build_url rt (constructor env_key opts) meth endpoint ps)
     = ''https://frontend-api-v3.pump.fun'' @ endpoint \<and>
   maxRetries (constructor env_key opts) = (case opt_maxRetries opts of None \<Rightarrow> 3 | Some n \<Rightarrow> n) \<and>
   retryDelay (constructor env_key opts) = (case opt_retryDelay opts of None \<Rightarrow> 1000 | Some n \<Rightarrow> n) \<and>
   (\<forall>k. opt_apiKey opts = Some k \<and> k \<noteq> [] \<longrightarrow>
        apiKey (constructor env_key opts) = Some k \<and>
        map_of (headers (constructor env_key opts)) ''Authorization'' = Some (''Bearer '' @ k)) \<and>
   \<not> debug (constructor env_key opts) \<and>
   filter is_Log (fst (request rt (constructor env_key opts) env meth endpoint ps)) = [] \<and>
   (\<exists>rest. fst (request rt ((constructor env_key opts)\<lparr>debug := True\<rparr>) env meth endpoint ps)
            = Log (LogRequest meth (build_url rt (constructor env_key opts) meth endpoint ps))
                # rest)"
proof -
  have u: "build_url rt ((constructor env_key opts)\<lparr>debug := True\<rparr>) meth endpoint ps
             = build_url rt (constructor env_key opts) meth endpoint ps"
    by (simp add: build_url_def)
  have l: "\<exists>rest. fst (request rt ((constructor env_key opts)\<lparr>debug := True\<rparr>) env meth
                         endpoint ps)
            = Log (LogRequest meth (build_url rt (constructor env_key opts) meth endpoint ps))
                # rest"
    using makeRequest_starts [of rt "(constructor env_key opts)\<lparr>debug := True\<rparr>" env meth
        "build_url rt (constructor env_key opts) meth endpoint ps" ps 0] u
    by (auto simp: request_def request_logs_def)
  have d: "\<not> debug (constructor env_key opts)"
    by (simp add: constructor_def Let_def)
  have "filter is_Log (fst (request rt (constructor env_key opts) env meth endpoint ps)) = []"
    unfolding request_def by (rule no_logs_without_debug [OF d])
  moreover have "href (build_url rt (constructor env_key opts) meth endpoint ps)
     = ''https://frontend-api-v3.pump.fun'' @ endpoint"
    by (simp add: build_url_def foldl_append_param constructor_def Let_def)
  moreover have "\<forall>k. opt_apiKey opts = Some k \<and> k \<noteq> [] \<longrightarrow>
        apiKey (constructor env_key opts) = Some k \<and>
        map_of (headers (constructor env_key opts)) ''Authorization'' = Some (''Bearer '' @ k)"
    by (simp add: constructor_def key_or_env_def truthy_string_def default_headers_def Let_def)
  moreover have "baseUrl (constructor env_key opts) = ''https://frontend-api-v3.pump.fun''"
    by (simp add: constructor_def Let_def)
  moreover have "maxRetries (constructor env_key opts)
                   = (case opt_maxRetries opts of None \<Rightarrow> 3 | Some n \<Rightarrow> n)"
    by (simp add: constructor_def Let_def)
  moreover have "retryDelay (constructor env_key opts)
                   = (case opt_retryDelay opts of None \<Rightarrow> 1000 | Some n \<Rightarrow> n)"
    by (simp add: constructor_def Let_def)
  ultimately show ?thesis
    using d l by blast
qed

theorem constructor_configuration_witness:
  "baseUrl (constructor None example_options) = ''https://frontend-api-v3.pump.fun'' \<and>
   maxRetries (constructor None example_options) = 3 \<and>
   retryDelay (constructor None example_options) = 1000 \<and>
   apiKey (constructor None example_options) = Some ''secret'' \<and>
   map_of (headers (constructor None example_options)) ''Authorization'' = Some ''Bearer secret'' \<and>
   \<not> debug (constructor None example_options)"
  using constructor_configuration [of None example_options example_runtime "''GET''"
      "''/metas/current''" "[]" "\<lambda>k. TimedOut :: unit outcome"]
  by (simp add: example_options_def)

section \<open>The query string\<close>

text \<open>
  C7. For a GET request, the pairs appended to the URL's search parameters are the
  entries of the parameter object whose value is neither \<^verbatim>\<open>undefined\<close> nor \<^verbatim>\<open>null\<close>, in
  order, each value converted with \<^verbatim>\<open>String\<close>; so a key whose value is \<^verbatim>\<open>undefined\<close> or
  \<^verbatim>\<open>null\<close> does not occur in the query string (the keys of an object are distinct).
\<close>

theorem null_params_omitted:
  "searchParams (build_url rt c ''GET'' endpoint ps)
     = map (\<lambda>(k, v). (k, String rt v)) (filter (\<lambda>(k, v). v \<noteq> PUndefined \<and> v \<noteq> PNull) ps) \<and>
   (distinct (map fst ps) \<longrightarrow>
      (\<forall>k v. (k, v) \<in> set ps \<and> (v = PUndefined \<or> v = PNull) \<longrightarrow>
         k \<notin> fst ` set (searchParams (build_url rt c ''GET'' endpoint ps))))"
proof -
  have eq: "searchParams (build_url rt c ''GET'' endpoint ps)
     = map (\<lambda>(k, v). (k, String rt v)) (filter (\<lambda>(k, v). v \<noteq> PUndefined \<and> v \<noteq> PNull) ps)"
    by (cases ps) (simp_all add: build_url_def foldl_append_param del: foldl_Cons)
  have "k \<notin> fst ` set (searchParams (build_url rt c ''GET'' endpoint ps))"
    if d: "distinct (map fst ps)" and m: "(k, v) \<in> set ps" and n: "v = PUndefined \<or> v = PNull"
    for k v
  proof
    assume "k \<in> fst ` set (searchParams (build_url rt c ''GET'' endpoint ps))"
    then obtain w where w: "(k, w) \<in> set ps" "w \<noteq> PUndefined \<and> w \<noteq> PNull"
      unfolding eq by auto
    from d m w(1) have "v = w" by (rule eq_key_imp_eq_value)
    with n w(2) show False by auto
  qed
  with eq show ?thesis by blast
qed

theorem null_params_omitted_witness:
  "(let u = build_url example_runtime example_client ''GET'' ''/coins/search''
              [(''searchTerm'', PStr ''doge''), (''limit'', PNum 5), (''offset'', PNull),
               (''sort'', PUndefined), (''includeNsfw'', PBool False)]
    in searchParams u = [(''searchTerm'', ''doge''), (''limit'', ''5''), (''includeNsfw'', ''false'')] \<and>
       ''offset'' \<notin> fst ` set (searchParams u) \<and> ''sort'' \<notin> fst ` set (searchParams u))"
  using null_params_omitted [of example_runtime example_client "''/coins/search''"
      "[(''searchTerm'', PStr ''doge''), (''limit'', PNum 5), (''offset'', PNull),
        (''sort'', PUndefined), (''includeNsfw'', PBool False)]"]
  by (simp add: example_runtime_def int_toString_def decimal.simps Let_def)

section \<open>The request executor\<close>

text \<open>
  C1. The claim: a response with status 429 is retried, after the \<^verbatim>\<open>Retry-After\<close> delay or
  the base delay, while the attempt count is below \<^verbatim>\<open>maxRetries\<close>. The code tests
  \<^verbatim>\<open>statusCode >= 400\<close> before it tests \<^verbatim>\<open>statusCode === 429\<close>, so a 429 response with a
  JSON body is rejected as an API error at once. Here the client allows three retries,
  the first response is a 429 with \<^verbatim>\<open>Retry-After: 2\<close>, and the run is one request, no
  timer, and the rejection.
\<close>

theorem rate_limited_response_not_retried:
  "maxRetries example_client = 3 \<and>
   (let run = request example_runtime example_client
                (\<lambda>k. Responded \<lparr> statusCode = 429, res_headers = [(''retry-after'', ''2'')],
                                res_body = ascii ''{\"message\":\"slow down\"}'' \<rparr>
                        :: unit outcome)
                ''GET'' ''/trades/latest'' [(''limit'', PNum 5)]
    in snd run = Reject (ApiError 429 (JStr ''slow down'')
                           (JObj [(''message'', JStr ''slow down'')]) [(''retry-after'', ''2'')])
       \<and> attempts (fst run) = 1 \<and> timers (fst run) = [])"
  by (simp add: example_defs run_defs Let_def)

text \<open>
  C3. The claim: the delay after a failed attempt \<open>a < maxRetries\<close> is
  \<open>min (retryDelay * 2 ^ a) 30000\<close> milliseconds. With a base delay of 0 and a ceiling of
  1025, attempt 1024 of a run whose attempts all time out is followed by a timer whose
  argument is \<^verbatim>\<open>Math.min(0 * Math.pow(2, 1024), 30000)\<close>, which is \<^verbatim>\<open>NaN\<close> and not 0.
\<close>

theorem backoff_of_zero_delay_is_NaN:
  "(let c = example_client\<lparr>maxRetries := 1025, retryDelay := 0\<rparr>;
        run = request example_runtime c (\<lambda>k. TimedOut :: unit outcome)
                ''GET'' ''/trades/latest'' [(''limit'', PNum 5)]
    in 1024 < attempts (fst run) \<and>
       timers (fst run) ! 1024 = Millis NaN \<and>
       min (retryDelay c * 2 ^ 1024) 30000 = 0)"
proof -
  let ?c = "example_client\<lparr>maxRetries := 1025, retryDelay := 0\<rparr>"
  let ?env = "\<lambda>k::nat. TimedOut :: unit outcome"
  let ?ps = "[(''limit'', PNum 5)] :: int params"
  have i: "1024 < attempts (fst (request example_runtime ?c ?env ''GET'' ''/trades/latest'' ?ps))"
    using issued_after_failures [of 0 1024 ?c ?env example_runtime "''GET''"
        "build_url example_runtime ?c ''GET'' ''/trades/latest'' ?ps" ?ps]
    by (simp add: request_def)
  have f: "transport_failure (?env 1024) = Some (TimeoutError 10000)" by simp
  have m: "1024 < maxRetries ?c" by simp
  have "backoff_delay ?c 1024 = NaN" by (simp add: backoff_delay_eq)
  with failed_attempt_timer [OF i f m] i show ?thesis
    by (simp add: Let_def)
qed

text \<open>
  C3, as the code has it. When attempt \<open>a\<close> (0-based) of a run fails in the transport (a
  connection error or the timeout) and \<open>a < maxRetries\<close>, and the base delay is not 0 or
  \<open>a\<close> is below 1024, the timer set before the next attempt is
  \<open>min (retryDelay * 2 ^ a) 30000\<close> milliseconds; when \<open>a\<close> is not below \<open>maxRetries\<close> the
  promise is rejected with the transport's error itself.
\<close>

theorem transport_failure_backoff:
  assumes "a < attempts (fst (request rt c env meth endpoint ps))"
    and "transport_failure (env a) = Some err"
  shows "(a < maxRetries c \<and> (retryDelay c \<noteq> 0 \<or> a < 1024) \<longrightarrow>
            a < length (timers (fst (request rt c env meth endpoint ps))) \<and>
            timers (fst (request rt c env meth endpoint ps)) ! a
              = Millis (Finite (min (retryDelay c * 2 ^ a) 30000))) \<and>
         (\<not> a < maxRetries c \<longrightarrow>
            snd (request rt c env meth endpoint ps) = Reject (Transport err))"
proof (cases "a < maxRetries c")
  case True
  have "backoff_delay c a = Finite (min (retryDelay c * 2 ^ a) 30000)"
    if "retryDelay c \<noteq> 0 \<or> a < 1024"
    using that by (auto simp: backoff_delay_eq)
  with failed_attempt_timer [OF assms True] True show ?thesis by simp
next
  case False
  then have "handle rt c a (env a) = ([], Settle (Reject (Transport err)))"
    using assms(2) by (simp add: handle_failure on_error_def)
  from issued_Settle [of 0 a rt c env meth "build_url rt c meth endpoint ps" ps, OF _ _ this]
    assms(1) False
  show ?thesis by (simp add: request_def)
qed

theorem transport_failure_backoff_witness:
  "(let run = request example_runtime example_client (\<lambda>k. TimedOut :: unit outcome)
                ''GET'' ''/trades/latest'' [(''limit'', PNum 5)]
    in attempts (fst run) = 4 \<and>
       timers (fst run) ! 2 = Millis (Finite 4000) \<and>
       snd run = Reject (Transport (TimeoutError 10000)))"
proof -
  let ?env = "\<lambda>k::nat. TimedOut :: unit outcome"
  let ?run = "request example_runtime example_client ?env ''GET'' ''/trades/latest''
                [(''limit'', PNum 5)]"
  have n: "attempts (fst ?run) = 4"
    by (simp add: example_defs run_defs)
  have m: "maxRetries example_client = 3" "retryDelay example_client = 1000"
    by (simp_all add: example_defs)
  have f: "\<And>k. transport_failure (?env k) = Some (TimeoutError 10000)" by simp
  from transport_failure_backoff [of 2 example_runtime example_client ?env "''GET''"
      "''/trades/latest''" "[(''limit'', PNum 5)]" "TimeoutError 10000"]
    transport_failure_backoff [of 3 example_runtime example_client ?env "''GET''"
      "''/trades/latest''" "[(''limit'', PNum 5)]" "TimeoutError 10000"]
  show ?thesis by (simp add: n m Let_def)
qed

text \<open>
  C4. Whatever the attempts meet, one logical request sends at most \<^verbatim>\<open>maxRetries + 1\<close>
  physical requests.
\<close>

theorem attempts_never_exceed_ceiling:
  "attempts (fst (request rt c env meth endpoint ps)) \<le> maxRetries c + 1"
  using attempts_bound [of rt c env meth "build_url rt c meth endpoint ps" ps 0]
  by (simp add: request_def)

text \<open>
  C8. The claim: every body that is not valid JSON is rejected as a malformed response.
  The handler tests for an empty body first: the empty string is not valid JSON, and with
  status 200 the promise resolves with the empty object.
\<close>

theorem empty_body_is_not_malformed:
  "JSON_parse example_runtime [] = Inl (ascii ''Unexpected end of JSON input'') \<and>
   snd (request example_runtime example_client
          (\<lambda>k. Responded \<lparr> statusCode = 200, res_headers = [], res_body = [] \<rparr> :: unit outcome)
          ''GET'' ''/metas/current'' []) = Resolve (JObj [])"
  by (simp add: example_defs run_defs)

text \<open>
  C8, as the code has it. When the response to attempt \<open>a\<close> of the run has a body that is
  not white space only and that \<^verbatim>\<open>JSON.parse\<close> rejects, the promise is rejected with the
  parse failure, whose message contains the first 200 characters of the body, and no
  further attempt is made: the run has sent \<open>a + 1\<close> requests (one, when the response
  answers the first attempt).
\<close>

theorem malformed_body_not_retried:
  assumes "a < attempts (fst (request rt c env meth endpoint ps))"
    and "env a = Responded res"
    and "\<not> list_all is_whitespace (res_body res)"
    and "JSON_parse rt (res_body res) = Inl m"
  shows "snd (request rt c env meth endpoint ps)
           = Reject (ParseFailure (parse_failure_message m (res_body res))) \<and>
         sublist (take 200 (res_body res)) (parse_failure_message m (res_body res)) \<and>
         attempts (fst (request rt c env meth endpoint ps)) = a + 1"
proof -
  from assms(3) have t: "trim (res_body res) \<noteq> []" by (simp add: trim_empty_iff)
  have "snd (handle rt c a (env a))
          = Settle (Reject (ParseFailure (parse_failure_message m (res_body res))))"
    by (simp add: assms(2,4) handle_def on_end_def t truthy_string_def Let_def)
  then obtain evs where
    "handle rt c a (env a)
       = (evs, Settle (Reject (ParseFailure (parse_failure_message m (res_body res)))))"
    by (cases "handle rt c a (env a)") auto
  from issued_Settle [of 0 a rt c env meth "build_url rt c meth endpoint ps" ps, OF _ _ this]
    assms(1)
  have r: "snd (request rt c env meth endpoint ps)
             = Reject (ParseFailure (parse_failure_message m (res_body res)))"
    and n: "attempts (fst (request rt c env meth endpoint ps)) = a + 1"
    by (simp_all add: request_def)
  have "parse_failure_message m (res_body res)
          = (ascii ''Failed to parse JSON response: '' @ m @ [0x0A] @ ascii ''Response: '')
              @ take 200 (res_body res) @ ascii ''...''"
    by (simp add: parse_failure_message_def substring0_def)
  then have "sublist (take 200 (res_body res)) (parse_failure_message m (res_body res))"
    unfolding sublist_def by blast
  with r n show ?thesis by simp
qed

theorem malformed_body_not_retried_witness:
  "(let run = request example_runtime example_client
                (\<lambda>k. Responded \<lparr> statusCode = 200, res_headers = [],
                                res_body = ascii ''<html>'' \<rparr> :: unit outcome)
                ''GET'' ''/metas/current'' []
    in snd run = Reject (ParseFailure (parse_failure_message (ascii ''Unexpected token'')
                                         (ascii ''<html>''))) \<and>
       sublist (ascii ''<html>'')
         (parse_failure_message (ascii ''Unexpected token'') (ascii ''<html>'')) \<and>
       attempts (fst run) = 1)"
proof -
  let ?res = "\<lparr> statusCode = 200, res_headers = [], res_body = ascii ''<html>'' \<rparr>"
  let ?env = "\<lambda>k::nat. Responded ?res :: unit outcome"
  have n: "attempts (fst (request example_runtime example_client ?env ''GET''
                            ''/metas/current'' [])) = 1"
    by (simp add: example_defs run_defs)
  have p: "JSON_parse example_runtime (res_body ?res) = Inl (ascii ''Unexpected token'')"
    by (simp add: example_runtime_def example_parse_def ascii_def)
  have w: "\<not> list_all is_whitespace (res_body ?res)"
    by (simp add: is_whitespace_def ascii_def)
  have i: "0 < attempts (fst (request example_runtime example_client ?env ''GET''
                               ''/metas/current'' []))"
    by (simp add: n)
  have e: "?env 0 = Responded ?res"
    by simp
  have l: "length (ascii ''<html>'') \<le> 200"
    by (simp add: ascii_def)
  from malformed_body_not_retried [OF i e w p] l
  show ?thesis by (simp add: Let_def)
qed

text \<open>
  C9. When the response to an attempt of the run has a body that is empty or white space
  only, the promise resolves with the empty object if the status is in 200..299, and is
  rejected otherwise.
\<close>

theorem empty_body_response:
  assumes "a < attempts (fst (request rt c env meth endpoint ps))"
    and "env a = Responded res"
    and "list_all is_whitespace (res_body res)"
  shows "snd (request rt c env meth endpoint ps) =
           (if 200 \<le> statusCode res \<and> statusCode res < 300
            then Resolve (JObj [])
            else Reject (EmptyResponse (statusCode res)))"
proof -
  from assms(3) have t: "trim (res_body res) = []" by (simp add: trim_empty_iff)
  have "snd (handle rt c a (env a)) =
       Settle (if 200 \<le> statusCode res \<and> statusCode res < 300
               then Resolve (JObj [])
               else Reject (EmptyResponse (statusCode res)))"
    by (simp add: assms(2) handle_def on_end_def t truthy_string_def Let_def)
  then obtain evs where
    "handle rt c a (env a) =
       (evs, Settle (if 200 \<le> statusCode res \<and> statusCode res < 300
                     then Resolve (JObj [])
                     else Reject (EmptyResponse (statusCode res))))"
    by (cases "handle rt c a (env a)") auto
  from issued_Settle [of 0 a rt c env meth "build_url rt c meth endpoint ps" ps, OF _ _ this]
    assms(1)
  show ?thesis by (simp add: request_def)
qed

theorem empty_body_response_witness:
  "snd (request example_runtime example_client
          (\<lambda>k. if k = 0 then Errored ()
                else Responded \<lparr> statusCode = 204, res_headers = [],
                                  res_body = [0x20, 0xA0, 0x0A, 0x2003] \<rparr>)
          ''GET'' ''/metas/current'' []) = Resolve (JObj []) \<and>
   snd (request example_runtime example_client
          (\<lambda>k. Responded \<lparr> statusCode = 502, res_headers = [], res_body = [] \<rparr> :: unit outcome)
          ''GET'' ''/metas/current'' []) = Reject (EmptyResponse 502)"
proof -
  let ?r1 = "\<lparr> statusCode = 204, res_headers = [], res_body = [0x20, 0xA0, 0x0A, 0x2003] \<rparr>"
  let ?r2 = "\<lparr> statusCode = 502, res_headers = [], res_body = [] \<rparr>"
  let ?e1 = "\<lambda>k::nat. if k = 0 then Errored () else Responded ?r1"
  let ?e2 = "\<lambda>k::nat. Responded ?r2 :: unit outcome"
  have n1: "1 < attempts (fst (request example_runtime example_client ?e1 ''GET''
                                 ''/metas/current'' []))"
    by (simp add: example_defs run_defs)
  have n2: "0 < attempts (fst (request example_runtime example_client ?e2 ''GET''
                                 ''/metas/current'' []))"
    by (simp add: example_defs run_defs)
  have e1: "?e1 1 = Responded ?r1" and e2: "?e2 0 = Responded ?r2"
    by simp_all
  have w1: "list_all is_whitespace (res_body ?r1)" and w2: "list_all is_whitespace (res_body ?r2)"
    by (simp_all add: is_whitespace_def)
  from empty_body_response [OF n1 e1 w1] empty_body_response [OF n2 e2 w2]
  show ?thesis by simp
qed

section \<open>The paginated collector\<close>

text \<open>
  C5. The claim: with \<^verbatim>\<open>maxTrades\<close> supplied, every page is requested with
  \<^verbatim>\<open>min(batchSize, maxTrades - collected)\<close> items and at most \<^verbatim>\<open>maxTrades\<close> items are
  returned, for every sequence of pages. With \<^verbatim>\<open>maxTrades = 0\<close> the cap is falsy: the pages
  are requested with \<^verbatim>\<open>batchSize\<close> and two items are returned. With \<^verbatim>\<open>maxTrades = 3\<close> and
  a second page that holds two items where one was requested, four items are returned:
  the collector appends whatever a page holds.
\<close>

theorem cap_not_enforced:
  "(let run = getAllTokenTrades (example_collect (Some 0))
                [Page (Some [1, 2 :: nat]), Page (Some []) :: (unit, nat) page]
    in snd run = Returned [1, 2] \<and> map q_limit (fetches (fst run)) = [2, 2]) \<and>
   (let run = getAllTokenTrades (example_collect (Some 3))
                [Page (Some [1, 2 :: nat]), Page (Some [3, 4]) :: (unit, nat) page]
    in snd run = Returned [1, 2, 3, 4] \<and> map q_limit (fetches (fst run)) = [2, 1])"
  by (simp add: collect_eval)

text \<open>
  C5, as the code has it. The collector returns the concatenation of the pages' items in
  order and stops at the first empty page: when the first \<open>j\<close> pages hold items and the
  cap is not reached before the next fetch, that fetch is made, and if its page is empty
  the items of the \<open>j\<close> pages are returned and nothing more is fetched (with no further
  page the collector is left waiting). The cap counts when \<^verbatim>\<open>maxTrades\<close> is supplied and is
  not 0: once the items collected reach it, the collector returns them without another
  fetch. The \<open>i\<close>-th fetch asks at the offset that is the number of items the earlier
  pages held, for \<^verbatim>\<open>batchSize\<close> items, or for \<^verbatim>\<open>min(batchSize, maxTrades - collected)\<close> under
  a cap. Whatever is returned is the concatenation of the pages fetched, and under a cap
  it is at most \<^verbatim>\<open>maxTrades\<close> items provided no page holds more items than its fetch
  asked for.
\<close>

theorem collector_concatenates_pages:
  "let bs = (case batchSize opts of None \<Rightarrow> 200 | Some b \<Rightarrow> b);
       run = getAllTokenTrades opts pages;
       qs = fetches (fst run);
       reached = (\<lambda>k. case maxTrades opts of
                          None \<Rightarrow> False
                        | Some m \<Rightarrow> m \<noteq> 0 \<and> m \<le> collected pages k)
   in (\<forall>j \<le> length pages.
         (\<forall>i < j. items (pages ! i) \<noteq> [] \<and> \<not> reached i) \<longrightarrow>
           (reached j \<longrightarrow>
              snd run = Returned (concat (map items (take j pages))) \<and> length qs = j) \<and>
           (\<not> reached j \<longrightarrow>
              j < length qs \<and>
              (j < length pages \<and> empty_page (pages ! j) \<longrightarrow>
                 snd run = Returned (concat (map items (take j pages))) \<and> length qs = j + 1) \<and>
              (j = length pages \<longrightarrow> snd run = Pending \<and> length qs = j + 1))) \<and>
      (\<forall>i < length qs.
         qs ! i =
           \<lparr> q_tokenAddress = tokenAddress opts,
             q_limit =
               (case maxTrades opts of
                  None \<Rightarrow> bs
                | Some m \<Rightarrow> if m \<noteq> 0 then min bs (m - collected pages i) else bs),
             q_offset = collected pages i,
             q_minimumSize = (case minimumSize opts of None \<Rightarrow> 50000000 | Some m \<Rightarrow> m) \<rparr>) \<and>
      (\<forall>j < length pages. items (pages ! j) = [] \<longrightarrow> length qs \<le> j + 1 \<and> snd run \<noteq> Pending) \<and>
      (\<forall>xs. snd run = Returned xs \<longrightarrow>
         length qs \<le> length pages \<and>
         xs = concat (map items (take (length qs) pages)) \<and>
         (\<forall>m. maxTrades opts = Some m \<and> m \<noteq> 0 \<and>
              (\<forall>i < length qs. length (items (pages ! i)) \<le> q_limit (qs ! i))
              \<longrightarrow> length xs \<le> m))"
proof -
  let ?bs = "case batchSize opts of None \<Rightarrow> 200 | Some b \<Rightarrow> b"
  let ?ms = "case minimumSize opts of None \<Rightarrow> 50000000 | Some m \<Rightarrow> m"
  let ?run = "collect_loop ?bs (maxTrades opts) (tokenAddress opts) ?ms [] 0 pages
                :: collector_event list \<times> ('a, 'b) outcome_all"
  let ?qs = "fetches (fst ?run)"
  let ?reached = "\<lambda>k. case maxTrades opts of
                          None \<Rightarrow> False
                        | Some m \<Rightarrow> m \<noteq> 0 \<and> m \<le> collected pages k"
  have r: "?reached k = cap_reached (maxTrades opts) (collected pages k)" for k
    by (simp add: cap_reached_def)
  have p: "(?reached j \<longrightarrow>
              snd ?run = Returned (concat (map items (take j pages))) \<and> length ?qs = j) \<and>
           (\<not> ?reached j \<longrightarrow>
              j < length ?qs \<and>
              (j < length pages \<and> empty_page (pages ! j) \<longrightarrow>
                 snd ?run = Returned (concat (map items (take j pages))) \<and> length ?qs = j + 1) \<and>
              (j = length pages \<longrightarrow> snd ?run = Pending \<and> length ?qs = j + 1))"
    if "j \<le> length pages" "\<forall>i < j. items (pages ! i) \<noteq> [] \<and> \<not> ?reached i" for j
    using loop_run [of j pages "maxTrades opts" "[]" ?bs "tokenAddress opts" ?ms 0] that
    unfolding r by auto
  have a: "?qs ! i =
             \<lparr> q_tokenAddress = tokenAddress opts,
               q_limit =
                 (case maxTrades opts of
                    None \<Rightarrow> ?bs
                  | Some m \<Rightarrow> if m \<noteq> 0 then min ?bs (m - collected pages i) else ?bs),
               q_offset = collected pages i,
               q_minimumSize = ?ms \<rparr>"
    if "i < length ?qs" for i
    using loop_fetch_nth [OF that] by (simp add: page_limit_def)
  have b: "length ?qs \<le> j + 1 \<and> snd ?run \<noteq> Pending"
    if "j < length pages" "items (pages ! j) = []" for j
    using loop_stops_at_empty [OF that] by simp
  have c: "length ?qs \<le> length pages \<and> xs = concat (map items (take (length ?qs) pages))"
    if "snd ?run = Returned xs" for xs
    using loop_returned [OF that] by simp
  have d: "length xs \<le> m"
    if "snd ?run = Returned xs" "maxTrades opts = Some m" "m \<noteq> 0"
      "\<forall>i < length ?qs. length (items (pages ! i)) \<le> q_limit (?qs ! i)" for xs m
    using loop_cap_bound [of m "[]" ?bs "tokenAddress opts" ?ms 0 pages xs] that by simp
  from p have p': "\<forall>j \<le> length pages.
         (\<forall>i < j. items (pages ! i) \<noteq> [] \<and> \<not> ?reached i) \<longrightarrow>
           (?reached j \<longrightarrow>
              snd ?run = Returned (concat (map items (take j pages))) \<and> length ?qs = j) \<and>
           (\<not> ?reached j \<longrightarrow>
              j < length ?qs \<and>
              (j < length pages \<and> empty_page (pages ! j) \<longrightarrow>
                 snd ?run = Returned (concat (map items (take j pages))) \<and> length ?qs = j + 1) \<and>
              (j = length pages \<longrightarrow> snd ?run = Pending \<and> length ?qs = j + 1))"
    by blast
  from a b c d have rest: "(\<forall>i < length ?qs.
         ?qs ! i =
           \<lparr> q_tokenAddress = tokenAddress opts,
             q_limit =
               (case maxTrades opts of
                  None \<Rightarrow> ?bs
                | Some m \<Rightarrow> if m \<noteq> 0 then min ?bs (m - collected pages i) else ?bs),
             q_offset = collected pages i,
             q_minimumSize = ?ms \<rparr>) \<and>
      (\<forall>j < length pages. items (pages ! j) = [] \<longrightarrow> length ?qs \<le> j + 1 \<and> snd ?run \<noteq> Pending) \<and>
      (\<forall>xs. snd ?run = Returned xs \<longrightarrow>
         length ?qs \<le> length pages \<and>
         xs = concat (map items (take (length ?qs) pages)) \<and>
         (\<forall>m. maxTrades opts = Some m \<and> m \<noteq> 0 \<and>
              (\<forall>i < length ?qs. length (items (pages ! i)) \<le> q_limit (?qs ! i))
              \<longrightarrow> length xs \<le> m))"
    by blast
  from p' rest show ?thesis
    unfolding Let_def getAllTokenTrades_def by (rule conjI)
qed

theorem collector_concatenates_pages_witness:
  "(let run = getAllTokenTrades (example_collect (Some 3))
                [Page (Some [1, 2 :: nat]), Page (Some [3]), Page (Some [4, 5]) :: (unit, nat) page]
    in snd run = Returned [1, 2, 3] \<and>
       map q_limit (fetches (fst run)) = [2, 1] \<and>
       map q_offset (fetches (fst run)) = [0, 2]) \<and>
   (let run = getAllTokenTrades (example_collect None)
                [Page (Some [1, 2 :: nat]), Page (Some [3, 4]), Page (Some [5]), Page None
                   :: (unit, nat) page]
    in run = ([Fetched \<lparr> q_tokenAddress = ''mint'', q_limit = 2, q_offset = 0,
                          q_minimumSize = 50000000 \<rparr>, Slept 500,
               Fetched \<lparr> q_tokenAddress = ''mint'', q_limit = 2, q_offset = 2,
                          q_minimumSize = 50000000 \<rparr>, Slept 500,
               Fetched \<lparr> q_tokenAddress = ''mint'', q_limit = 2, q_offset = 4,
                          q_minimumSize = 50000000 \<rparr>,
               Fetched \<lparr> q_tokenAddress = ''mint'', q_limit = 2, q_offset = 5,
                          q_minimumSize = 50000000 \<rparr>],
              Returned [1, 2, 3, 4, 5]))"
  using collector_concatenates_pages [of "example_collect (Some 3)"
      "[Page (Some [1, 2 :: nat]), Page (Some [3]), Page (Some [4, 5]) :: (unit, nat) page]"]
    collector_concatenates_pages [of "example_collect None"
      "[Page (Some [1, 2 :: nat]), Page (Some [3, 4]), Page (Some [5]), Page None
          :: (unit, nat) page]"]
  by (simp add: collect_eval)

text \<open>
  C6. When a page fetch that the collector makes fails, the collection fails with that
  error, so no items are returned, and the failed fetch is the last one: the collector
  neither repeats it nor goes on.
\<close>

theorem page_failure_aborts_collection:
  assumes "i < length pages"
    and "pages ! i = Failed e"
    and "i < length (fetches (fst (getAllTokenTrades opts pages)))"
  shows "snd (getAllTokenTrades opts pages) = Threw e \<and>
         length (fetches (fst (getAllTokenTrades opts pages))) = i + 1"
  using assms unfolding getAllTokenTrades_def by (rule loop_failed)

theorem page_failure_aborts_collection_witness:
  "(let run = getAllTokenTrades (example_collect None)
                [Page (Some [1, 2 :: nat]), Failed ''ECONNRESET'', Page (Some [3])]
    in snd run = Threw ''ECONNRESET'' \<and> length (fetches (fst run)) = 2)"
proof -
  let ?pages = "[Page (Some [1, 2 :: nat]), Failed ''ECONNRESET'', Page (Some [3])]"
  have i: "1 < length ?pages" by simp
  have f: "?pages ! 1 = Failed ''ECONNRESET''" by simp
  have n: "1 < length (fetches (fst (getAllTokenTrades (example_collect None) ?pages)))"
    by (simp add: collect_eval)
  from page_failure_aborts_collection [OF i f n] show ?thesis
    by (simp add: Let_def)
qed



end
